theory Spec2Isabelle
  imports Main
begin

section \<open>Data model of \<open>quran/tasks.py\<close>\<close>

text \<open>
  The development covers \<open>generate_recitation_surah_timestamps_task\<close>: the request to the
  forced-alignment service, the loop that matches the returned word events to the words of
  the surah, the rows it writes and the notification it leaves.

  A decoded JSON scalar. The service's numbers are offsets in seconds. \<open>JNum n\<close> stands
  for a number \<open>x\<close> whose \<open>timedelta(seconds=x)\<close> holds \<open>n\<close> microseconds, the
  resolution a \<open>timedelta\<close> keeps, so \<open>JNum 500000\<close> stands for \<open>0.5\<close>. For an offset
  with at most six decimals below \<open>2^33\<close> seconds (272 years) that is \<open>x\<close> times a million,
  exactly; beyond, the float sum of the code may land on a neighbouring microsecond, and
  \<open>n\<close> is then the count the code arrives at. A number is taken to be zero in Python
  exactly when its count is zero: offsets below half a microsecond are left out.
\<close>

datatype json = JNull | JNum int | JStr string

text \<open>
  One element of \<open>alignment_data\<close>, taken to be a JSON object: a Python dict from keys
  to decoded values. A key may be missing and a value may have the wrong kind.
\<close>

type_synonym word_data = "string \<rightharpoonup> json"

text \<open>A row of the \<open>Word\<close> model: primary key, the number of its ayah, its text.\<close>

record Word =
  word_id :: nat
  ayah_number :: nat
  word_text :: string

text \<open>The exceptions a run can meet.\<close>

datatype py_error =
    KeyError string
  | TypeError
  | OverflowError
  | ConnectionError
  | Timeout
  | HTTPError nat
  | JSONDecodeError

text \<open>
  A row of \<open>RecitationSurahTimestamp\<close>. The two times are \<open>datetime.time\<close> values,
  held as microseconds since midnight.
\<close>

record RecitationSurahTimestamp =
  recitation_surah :: nat
  start_time :: int
  end_time :: "int option"
  word :: Word

subsection \<open>Python primitives used by the loop\<close>

text \<open>\<open>d[k]\<close> on a dict raises \<open>KeyError\<close> for a missing key; \<open>d.get(k)\<close> gives \<open>None\<close>.\<close>

definition getitem :: "word_data \<Rightarrow> string \<Rightarrow> py_error + json" where
  "getitem d k = (case d k of None \<Rightarrow> Inl (KeyError k) | Some v \<Rightarrow> Inr v)"

definition get :: "word_data \<Rightarrow> string \<Rightarrow> json" where
  "get d k = (case d k of None \<Rightarrow> JNull | Some v \<Rightarrow> v)"

text \<open>Truth value of a decoded value in an \<open>if\<close>.\<close>

fun truthy :: "json \<Rightarrow> bool" where
  "truthy JNull = False"
| "truthy (JNum n) = (n \<noteq> 0)"
| "truthy (JStr s) = (s \<noteq> [])"

definition day_us :: int where
  "day_us = 86400000000"

text \<open>\<open>datetime.max - datetime.min\<close>, in microseconds.\<close>

definition max_us :: int where
  "max_us = 3652059 * 86400000000 - 1"

text \<open>
  \<open>(datetime.min + timedelta(seconds=v)).time()\<close>: a value that is no number is a
  \<open>TypeError\<close>; a sum before year 1 or after year 9999 is an \<open>OverflowError\<close>;
  \<open>.time()\<close> keeps the time of day and forgets the date.
\<close>

definition to_time :: "json \<Rightarrow> py_error + int" where
  "to_time v =
     (case v of
        JNum us \<Rightarrow> if 0 \<le> us \<and> us \<le> max_us then Inr (us mod day_us) else Inl OverflowError
      | _ \<Rightarrow> Inl TypeError)"

subsection \<open>The matching loop\<close>

text \<open>
  The inner \<open>while\<close>:
  \<^verbatim>\<open>while word_idx < len(words) and words[word_idx].text != word_data['text']: word_idx += 1\<close>
  The right operand is evaluated only when the left one holds, so a missing \<open>'text'\<close> key
  raises only while the cursor is inside \<open>words\<close>.
\<close>

function scan :: "Word list \<Rightarrow> word_data \<Rightarrow> nat \<Rightarrow> py_error + nat" where
  "scan words wd word_idx =
     (if word_idx < length words then
        (case getitem wd ''text'' of
           Inl e \<Rightarrow> Inl e
         | Inr v \<Rightarrow>
             if JStr (word_text (words ! word_idx)) \<noteq> v
             then scan words wd (word_idx + 1)
             else Inr word_idx)
      else Inr word_idx)"
  by pat_completeness auto
termination
  by (relation "measure (\<lambda>(words, wd, word_idx). length words - word_idx)") auto

declare scan.simps [simp del]

text \<open>\<open>start_time\<close> and \<open>end_time\<close> of the row, as the two assignments compute them.\<close>

definition start_of :: "word_data \<Rightarrow> py_error + int" where
  "start_of wd = (case getitem wd ''start'' of Inl e \<Rightarrow> Inl e | Inr v \<Rightarrow> to_time v)"

definition end_of :: "word_data \<Rightarrow> py_error + int option" where
  "end_of wd =
     (if truthy (get wd ''end'') then
        (case getitem wd ''end'' of
           Inl e \<Rightarrow> Inl e
         | Inr v \<Rightarrow> (case to_time v of Inl e \<Rightarrow> Inl e | Inr t \<Rightarrow> Inr (Some t)))
      else Inr None)"

text \<open>
  The body of the \<open>for\<close> loop, for one \<open>word_data\<close>. The state is the cursor
  \<open>word_idx\<close> and the rows created so far; an exception leaves the rows as they are and
  loses the cursor.
\<close>

definition match_word ::
  "nat \<Rightarrow> Word list \<Rightarrow> word_data \<Rightarrow> nat \<times> RecitationSurahTimestamp list
     \<Rightarrow> (py_error + nat) \<times> RecitationSurahTimestamp list" where
  "match_word rs words wd st =
     (case st of (word_idx, rows) \<Rightarrow>
        (case scan words wd word_idx of
           Inl e \<Rightarrow> (Inl e, rows)
         | Inr i \<Rightarrow>
             if i < length words then
               (case start_of wd of
                  Inl e \<Rightarrow> (Inl e, rows)
                | Inr s \<Rightarrow>
                    (case end_of wd of
                       Inl e \<Rightarrow> (Inl e, rows)
                     | Inr e \<Rightarrow>
                         (Inr (i + 1),
                          rows @ [\<lparr>recitation_surah = rs, start_time = s, end_time = e,
                                    word = words ! i\<rparr>])))
             else (Inr i, rows)))"

text \<open>The \<open>for word_data in alignment_data\<close> loop.\<close>

fun match_loop ::
  "nat \<Rightarrow> Word list \<Rightarrow> word_data list \<Rightarrow> nat \<times> RecitationSurahTimestamp list
     \<Rightarrow> (py_error + nat) \<times> RecitationSurahTimestamp list" where
  "match_loop rs words [] st = (Inr (fst st), snd st)"
| "match_loop rs words (wd # rest) st =
     (case match_word rs words wd st of
        (Inl e, rows) \<Rightarrow> (Inl e, rows)
      | (Inr i, rows) \<Rightarrow> match_loop rs words rest (i, rows))"

subsection \<open>The Celery task\<close>

text \<open>
  What the task reads: the recitation (its \<open>uuid\<close> and its \<open>creator\<close>, \<open>None\<close> when
  there is none) and two Django settings. The secret key is \<open>None\<close> when the setting is
  missing.
\<close>

record Recitation =
  uuid :: string
  creator :: "nat option"

record settings =
  FORCED_ALIGNMENT_API_URL :: string
  FORCED_ALIGNMENT_SECRET_KEY :: "string option"

text \<open>The arguments of the one \<open>requests.post\<close> call.\<close>

record request =
  url :: string
  mp3_url :: string
  text_arg :: string
  language :: string
  headers :: "string option"
  timeout :: nat

text \<open>
  What comes back: \<open>requests.post\<close> raises, or returns a response with a status code and
  a body that \<open>.json()\<close> decodes to a list of word events or rejects.
\<close>

datatype body = NotJSON | Alignment "word_data list"

datatype reply = NoReply py_error | Response nat body

text \<open>
  The three texts the task returns and writes into the notification message:
  \<open>'timestamps generated'\<close>, \<open>'Failed: missing audio_url or text'\<close> and
  \<open>'Failed to generate timestamps: ' + str(e)\<close>.
\<close>

datatype outcome = Generated | MissingInput | Raised py_error

datatype message_type = MESSAGE_TYPE_SUCCESS | MESSAGE_TYPE_FAILED

record Notification =
  user :: nat
  resource_controller :: string
  resource_uuid :: string
  description :: string
  message :: outcome
  message_type :: message_type

text \<open>
  The part of the outside world the task changes: the timestamp rows, the notification
  rows, and the requests sent. Both \<open>objects.create\<close> calls are taken to succeed.
\<close>

record world =
  timestamps :: "RecitationSurahTimestamp list"
  notifications :: "Notification list"
  posted :: "request list"

text \<open>\<open>' '.join(...)\<close>\<close>

fun join :: "string list \<Rightarrow> string" where
  "join [] = []"
| "join [x] = x"
| "join (x # y # ys) = x @ '' '' @ join (y # ys)"

text \<open>\<open>Response.raise_for_status\<close> of the requests library raises for 4xx and 5xx only.\<close>

definition raise_for_status :: "nat \<Rightarrow> py_error + unit" where
  "raise_for_status status =
     (if 400 \<le> status \<and> status < 600 then Inl (HTTPError status) else Inr ())"

definition json_of :: "body \<Rightarrow> py_error + word_data list" where
  "json_of b = (case b of NotJSON \<Rightarrow> Inl JSONDecodeError | Alignment evs \<Rightarrow> Inr evs)"

definition align_request :: "settings \<Rightarrow> string \<Rightarrow> string \<Rightarrow> request" where
  "align_request cfg audio_url txt =
     \<lparr>url = FORCED_ALIGNMENT_API_URL cfg @ ''/align'',
      mp3_url = audio_url,
      text_arg = txt,
      language = ''ar'',
      headers =
        (case FORCED_ALIGNMENT_SECRET_KEY cfg of
           None \<Rightarrow> None
         | Some k \<Rightarrow> if k \<noteq> [] then Some k else None),
      timeout = 120\<rparr>"

text \<open>
  The body of the inner \<open>try\<close>, up to the end of the loop: post, \<open>raise_for_status\<close>,
  \<open>.json()\<close>, then the matching loop from cursor 0. Rows created before an exception
  stay: the task opens no transaction.
\<close>

definition align ::
  "settings \<Rightarrow> (request \<Rightarrow> reply) \<Rightarrow> nat \<Rightarrow> string \<Rightarrow> Word list \<Rightarrow> string \<Rightarrow> world
     \<Rightarrow> (py_error + unit) \<times> world" where
  "align cfg post rs audio_url words txt w =
     (let req = align_request cfg audio_url txt;
          w1 = w\<lparr>posted := posted w @ [req]\<rparr>
      in case post req of
           NoReply e \<Rightarrow> (Inl e, w1)
         | Response status b \<Rightarrow>
             (case raise_for_status status of
                Inl e \<Rightarrow> (Inl e, w1)
              | Inr _ \<Rightarrow>
                  (case json_of b of
                     Inl e \<Rightarrow> (Inl e, w1)
                   | Inr alignment_data \<Rightarrow>
                       (case match_loop rs words alignment_data (0, timestamps w1) of
                          (Inl e, rows) \<Rightarrow> (Inl e, w1\<lparr>timestamps := rows\<rparr>)
                        | (Inr _, rows) \<Rightarrow> (Inr (), w1\<lparr>timestamps := rows\<rparr>)))))"

text \<open>\<open>if user: Notification.objects.create(...)\<close>\<close>

definition notify ::
  "nat option \<Rightarrow> string \<Rightarrow> string \<Rightarrow> string \<Rightarrow> outcome \<Rightarrow> message_type \<Rightarrow> world \<Rightarrow> world" where
  "notify usr ctrl ruuid descr msg mt w =
     (case usr of
        None \<Rightarrow> w
      | Some u \<Rightarrow>
          w\<lparr>notifications := notifications w @
               [\<lparr>user = u, resource_controller = ctrl, resource_uuid = ruuid,
                 description = descr, message = msg, message_type = mt\<rparr>]\<rparr>)"

text \<open>
  The task from \<open>audio_url\<close> on. \<open>rs\<close> is the \<open>RecitationSurah\<close> row that the first
  lines get or create, \<open>words\<close> the ordered rows of the surah. The outer \<open>except\<close> guards
  only the notification writes of the branches below, which succeed here, so the task
  always returns one of the three texts.
\<close>

definition generate_recitation_surah_timestamps_task ::
  "settings \<Rightarrow> (request \<Rightarrow> reply) \<Rightarrow> Recitation \<Rightarrow> nat \<Rightarrow> string \<Rightarrow> Word list \<Rightarrow> world
     \<Rightarrow> outcome \<times> world" where
  "generate_recitation_surah_timestamps_task cfg post recitation rs audio_url words w =
     (let txt = join (map word_text words);
          usr = creator recitation
      in if audio_url \<noteq> [] \<and> txt \<noteq> [] then
           (case align cfg post rs audio_url words txt w of
              (Inr _, w') \<Rightarrow>
                (Generated,
                 notify usr ''recitations'' (uuid recitation)
                   ''Recitation timestamps generated'' Generated MESSAGE_TYPE_SUCCESS w')
            | (Inl e, w') \<Rightarrow>
                (Raised e,
                 notify usr ''quran.generate_recitation_timestamps'' (uuid recitation)
                   ''Failed to generate recitation timestamps'' (Raised e)
                   MESSAGE_TYPE_FAILED w'))
         else
           (MissingInput,
            notify usr ''quran.tasks.generate_recitation_timestamps'' (uuid recitation)
              ''Failed to generate recitation timestamps'' MissingInput
              MESSAGE_TYPE_FAILED w))"

subsection \<open>Concrete inputs\<close>

definition mk_word :: "nat \<Rightarrow> string \<Rightarrow> Word" where
  "mk_word i t = \<lparr>word_id = i, ayah_number = 1, word_text = t\<rparr>"

definition event :: "string \<Rightarrow> int \<Rightarrow> int \<Rightarrow> word_data" where
  "event t s e = [''text'' \<mapsto> JStr t, ''start'' \<mapsto> JNum s, ''end'' \<mapsto> JNum e]"

definition world0 :: world where
  "world0 = \<lparr>timestamps = [], notifications = [], posted = []\<rparr>"

definition cfg0 :: settings where
  "cfg0 = \<lparr>FORCED_ALIGNMENT_API_URL = ''http://align'', FORCED_ALIGNMENT_SECRET_KEY = None\<rparr>"

definition words_abac :: "Word list" where
  "words_abac = [mk_word 0 ''a'', mk_word 1 ''b'', mk_word 2 ''a'', mk_word 3 ''c'']"

definition events_ac :: "word_data list" where
  "events_ac = [event ''a'' 0 500000, event ''c'' 1000000 1200000]"

definition words_ab :: "Word list" where
  "words_ab = [mk_word 0 ''a'', mk_word 1 ''b'']"


definition anonymous :: Recitation where
  "anonymous = \<lparr>uuid = ''r1'', creator = None\<rparr>"

definition owned :: Recitation where
  "owned = \<lparr>uuid = ''r1'', creator = Some 5\<rparr>"

definition post_300 :: "request \<Rightarrow> reply" where
  "post_300 req = Response 300 (Alignment [])"

definition post_500 :: "request \<Rightarrow> reply" where
  "post_500 req = Response 500 NotJSON"

definition post_partial :: "request \<Rightarrow> reply" where
  "post_partial req =
     Response 200 (Alignment [event ''a'' 0 500000, [''text'' \<mapsto> JStr ''b''],
                              event ''c'' 1000000 1200000])"

subsection \<open>Vocabulary of the statements\<close>






text \<open>The failure notification of a run, present when the recitation has a creator.\<close>

definition failure_note :: "Recitation \<Rightarrow> string \<Rightarrow> outcome \<Rightarrow> Notification list" where
  "failure_note recitation ctrl msg =
     (case creator recitation of
        None \<Rightarrow> []
      | Some u \<Rightarrow>
          [\<lparr>user = u, resource_controller = ctrl, resource_uuid = uuid recitation,
            description = ''Failed to generate recitation timestamps'', message = msg,
            message_type = MESSAGE_TYPE_FAILED\<rparr>])"

section \<open>Properties of the matching loop\<close>

subsection \<open>The inner scan\<close>

lemma scan_ge: "scan words wd i = Inr j \<Longrightarrow> i \<le> j"
proof (induction words wd i rule: scan.induct)
  case (1 words wd word_idx)
  then show ?case
    by (subst (asm) (2) scan.simps) (auto split: if_splits sum.splits)
qed

lemma scan_le: "scan words wd i = Inr j \<Longrightarrow> i \<le> length words \<Longrightarrow> j \<le> length words"
proof (induction words wd i rule: scan.induct)
  case (1 words wd word_idx)
  then show ?case
    by (subst (asm) (2) scan.simps) (auto split: if_splits sum.splits)
qed

lemma scan_past: "length words \<le> i \<Longrightarrow> scan words wd i = Inr i"
  by (subst scan.simps) simp

lemma scan_found:
  "scan words wd i = Inr j \<Longrightarrow> j < length words \<Longrightarrow> wd ''text'' = Some (JStr (word_text (words ! j)))"
proof (induction words wd i rule: scan.induct)
  case (1 words wd word_idx)
  then show ?case
    by (subst (asm) (2) scan.simps) (auto simp: getitem_def split: if_splits sum.splits option.splits)
qed


lemma scan_miss:
  "wd ''text'' = Some v \<Longrightarrow> \<forall>k. i \<le> k \<and> k < length words \<longrightarrow> JStr (word_text (words ! k)) \<noteq> v
     \<Longrightarrow> i \<le> length words \<Longrightarrow> scan words wd i = Inr (length words)"
proof (induction words wd i rule: scan.induct)
  case (1 words wd word_idx)
  show ?case
  proof (cases "word_idx < length words")
    case True
    then have ne: "JStr (word_text (words ! word_idx)) \<noteq> v" using "1.prems" by simp
    have "scan words wd (word_idx + 1) = Inr (length words)"
      using "1.IH"[OF True, of v] "1.prems" True ne by (simp add: getitem_def)
    then show ?thesis using True ne "1.prems"(1)
      by (subst scan.simps) (simp add: getitem_def)
  next
    case False
    then show ?thesis using "1.prems" by (subst scan.simps) simp
  qed
qed

text \<open>What one pass of the loop body can do: raise, drop the event, or append one row.\<close>

lemma match_word_disj:
  assumes "match_word rs words wd (i, rows) = (r, rows')"
  shows "(\<exists>e. r = Inl e \<and> rows' = rows)
       \<or> (\<exists>j. r = Inr j \<and> rows' = rows \<and> scan words wd i = Inr j \<and> length words \<le> j)
       \<or> (\<exists>j s e. r = Inr (j + 1) \<and> scan words wd i = Inr j \<and> j < length words
             \<and> start_of wd = Inr s \<and> end_of wd = Inr e
             \<and> rows' = rows @ [\<lparr>recitation_surah = rs, start_time = s, end_time = e,
                                   word = words ! j\<rparr>])"
proof (cases "scan words wd i")
  case (Inl e)
  with assms have "r = Inl e" "rows' = rows" by (simp_all add: match_word_def)
  then show ?thesis by blast
next
  case (Inr j)
  show ?thesis
  proof (cases "j < length words")
    case False
    with assms Inr have "r = Inr j" "rows' = rows" by (simp_all add: match_word_def)
    then show ?thesis using Inr False by simp
  next
    case True
    note lt = this
    show ?thesis
    proof (cases "start_of wd")
      case (Inl e)
      with assms Inr lt have "r = Inl e" "rows' = rows" by (simp_all add: match_word_def)
      then show ?thesis by blast
    next
      case s: (Inr s)
      show ?thesis
      proof (cases "end_of wd")
        case (Inl e)
        with assms Inr lt s have "r = Inl e" "rows' = rows" by (simp_all add: match_word_def)
        then show ?thesis by blast
      next
        case e: (Inr e)
        with assms Inr lt s have "r = Inr (j + 1)"
          "rows' = rows @ [\<lparr>recitation_surah = rs, start_time = s, end_time = e,
                            word = words ! j\<rparr>]"
          by (simp_all add: match_word_def)
        then show ?thesis using Inr lt s e by blast
      qed
    qed
  qed
qed

lemma match_word_cases:
  assumes "match_word rs words wd (i, rows) = (r, rows')"
  obtains (raised) e where "r = Inl e" "rows' = rows"
  | (dropped) j where "r = Inr j" "rows' = rows" "scan words wd i = Inr j" "length words \<le> j"
  | (matched) j s e where "r = Inr (j + 1)" "scan words wd i = Inr j" "j < length words"
      "start_of wd = Inr s" "end_of wd = Inr e"
      "rows' = rows @ [\<lparr>recitation_surah = rs, start_time = s, end_time = e, word = words ! j\<rparr>]"
  using match_word_disj[OF assms] by blast

lemma match_word_cursor:
  "match_word rs words wd (i, rows) = (Inr i', rows') \<Longrightarrow> i \<le> i'"
  by (erule match_word_cases) (auto dest: scan_ge)

lemma match_word_bound:
  "match_word rs words wd (i, rows) = (Inr i', rows') \<Longrightarrow> i \<le> length words \<Longrightarrow> i' \<le> length words"
  by (erule match_word_cases) (auto dest: scan_le)

lemma match_loop_append:
  "match_loop rs words (xs @ ys) st =
     (case match_loop rs words xs st of
        (Inl e, rows) \<Rightarrow> (Inl e, rows)
      | (Inr i, rows) \<Rightarrow> match_loop rs words ys (i, rows))"
  by (induction xs arbitrary: st) (auto split: prod.splits sum.splits)

lemma match_loop_cursor:
  "match_loop rs words evs (i, rows) = (Inr i', rows') \<Longrightarrow> i \<le> i'"
proof (induction evs arbitrary: i rows)
  case Nil
  then show ?case by simp
next
  case (Cons wd evs)
  then show ?case
    by (auto split: prod.splits sum.splits dest!: match_word_cursor) fastforce
qed

text \<open>The rows the loop adds, with the indices of the words they are bound to.\<close>

lemma match_loop_rows:
  "\<exists>new idxs. snd (match_loop rs words evs (i, rows)) = rows @ new
      \<and> map word new = map ((!) words) idxs
      \<and> sorted_wrt (<) idxs \<and> set idxs \<subseteq> {i..<length words}
      \<and> length new \<le> length evs"
proof (induction evs arbitrary: i rows)
  case Nil
  show ?case by (rule exI[of _ "[]"], rule exI[of _ "[]"]) simp
next
  case (Cons wd evs)
  obtain r rows1 where step: "match_word rs words wd (i, rows) = (r, rows1)"
    by (cases "match_word rs words wd (i, rows)")
  from step show ?case
  proof (cases rule: match_word_cases)
    case (raised e)
    then show ?thesis using step
      by (intro exI[of _ "[]"]) simp
  next
    case (dropped j)
    from Cons.IH[of j rows] obtain new idxs where
      h: "snd (match_loop rs words evs (j, rows)) = rows @ new"
         "map word new = map ((!) words) idxs" "sorted_wrt (<) idxs"
         "set idxs \<subseteq> {j..<length words}" "length new \<le> length evs"
      by blast
    have "i \<le> j" using dropped scan_ge by blast
    then show ?thesis using h dropped step
      by (intro exI[of _ new] exI[of _ idxs]) auto
  next
    case (matched j s e)
    let ?row = "\<lparr>recitation_surah = rs, start_time = s, end_time = e, word = words ! j\<rparr>"
    from Cons.IH[of "j + 1" "rows @ [?row]"] obtain new idxs where
      h: "snd (match_loop rs words evs (j + 1, rows @ [?row])) = (rows @ [?row]) @ new"
         "map word new = map ((!) words) idxs" "sorted_wrt (<) idxs"
         "set idxs \<subseteq> {j + 1..<length words}" "length new \<le> length evs"
      by blast
    have ij: "i \<le> j" using matched scan_ge by blast
    show ?thesis using h matched step ij
      by (intro exI[of _ "?row # new"] exI[of _ "j # idxs"]) auto
  qed
qed

lemma match_loop_exhausted:
  "length words \<le> i \<Longrightarrow> match_loop rs words evs (i, rows) = (Inr i, rows)"
  by (induction evs) (simp_all add: match_word_def scan_past)

lemma sorted_idxs_length:
  assumes "sorted_wrt (<) idxs" "set idxs \<subseteq> {i..<n}"
  shows "length (idxs :: nat list) \<le> n - i"
proof -
  have "distinct idxs" using assms(1) by (simp add: strict_sorted_iff)
  then have "length idxs = card (set idxs)" by (simp add: distinct_card)
  also have "\<dots> \<le> card {i..<n}" using assms(2) by (intro card_mono) auto
  finally show ?thesis by simp
qed

subsection \<open>Events that match in order, events that match nothing\<close>

lemma match_word_miss:
  assumes "wd ''text'' = Some v"
    and "\<forall>k. i \<le> k \<and> k < length words \<longrightarrow> JStr (word_text (words ! k)) \<noteq> v"
    and "i \<le> length words"
  shows "match_word rs words wd (i, rows) = (Inr (length words), rows)"
  using scan_miss[where wd = wd and v = v and i = i and words = words] assms
  by (simp add: match_word_def)

lemma match_word_raises_keeps_rows:
  "match_word rs words wd (i, rows) = (Inl e, rows') \<Longrightarrow> rows' = rows"
  by (erule match_word_cases) auto

subsection \<open>Start times of the rows\<close>






lemma distinct_ids:
  assumes "distinct (map word_id words)" "sorted_wrt (<) idxs" "set idxs \<subseteq> {i..<length words}"
    "map word new = map ((!) words) idxs"
  shows "distinct (map (\<lambda>r. word_id (word r)) new)"
proof -
  have d: "distinct idxs" using assms(2) by (simp add: strict_sorted_iff)
  have "map (\<lambda>r. word_id (word r)) new = map word_id (map word new)" by simp
  also have "\<dots> = map (\<lambda>k. map word_id words ! k) idxs" using assms(3,4) by auto
  finally have eq: "map (\<lambda>r. word_id (word r)) new = map (\<lambda>k. map word_id words ! k) idxs" .
  have "inj_on (\<lambda>k. map word_id words ! k) (set idxs)"
  proof (rule inj_onI)
    fix x y assume xy: "x \<in> set idxs" "y \<in> set idxs"
      and eq: "map word_id words ! x = map word_id words ! y"
    have "x < length (map word_id words)" "y < length (map word_id words)"
      using xy assms(3) by auto
    then show "x = y" using assms(1) eq by (simp only: nth_eq_iff_index_eq)
  qed
  then show ?thesis using d eq by (simp add: distinct_map)
qed

subsection \<open>The notification of a failed run\<close>

lemma notify_failed:
  "notify (creator recitation) ctrl (uuid recitation)
     ''Failed to generate recitation timestamps'' msg MESSAGE_TYPE_FAILED w
   = w\<lparr>notifications := notifications w @ failure_note recitation ctrl msg\<rparr>"
  by (simp add: notify_def failure_note_def split: option.splits)

section \<open>Verified properties of the matching loop\<close>

text \<open>
  C1, as stated, fails. The words are \<open>a b\<close> and the events \<open>x a\<close>. The event \<open>x\<close>
  matches no word: it is dropped and no row is created, but the scan has moved the cursor
  from 0 to 2, the end of the words, and not left it where it was. The next event
  \<open>a\<close> therefore finds nothing, although the word \<open>a\<close> at index 0 was never bound.
\<close>

theorem unmatched_event_counterexample:
  "match_word 7 words_ab (event ''x'' 0 500000) (0, []) = (Inr 2, [])
   \<and> match_word 7 words_ab (event ''x'' 0 500000) (0, []) \<noteq> (Inr 0, [])
   \<and> match_loop 7 words_ab [event ''x'' 0 500000, event ''a'' 1000000 1200000] (0, [])
         = (Inr 2, [])"
  by code_simp

text \<open>
  C1, amended. If the text of an event equals the text of no word from the cursor on, the
  event is dropped: the pass over it creates no row and raises nothing. It leaves the
  cursor at the end of the words (where it was only if it was there already), and the
  loop still runs over the later events, each of which is dropped in the same way.
\<close>

theorem unmatched_event_exhausts_cursor:
  assumes "wd ''text'' = Some v"
    and "\<forall>k. i \<le> k \<and> k < length words \<longrightarrow> JStr (word_text (words ! k)) \<noteq> v"
    and "i \<le> length words"
  shows "match_word rs words wd (i, rows) = (Inr (length words), rows)
       \<and> match_loop rs words (wd # rest) (i, rows) = (Inr (length words), rows)"
  using match_word_miss[where wd = wd and v = v and i = i and words = words and rs = rs
      and rows = rows] assms
  by (simp add: match_loop_exhausted)

theorem unmatched_event_exhausts_cursor_witness:
  "event ''x'' 0 500000 ''text'' = Some (JStr ''x'')
   \<and> match_word 7 words_abac (event ''x'' 0 500000) (1, []) = (Inr 4, [])
   \<and> match_loop 7 words_abac [event ''x'' 0 500000, event ''c'' 1000000 1200000] (1, [])
        = (Inr 4, [])"
proof -
  have t: "event ''x'' 0 500000 ''text'' = Some (JStr ''x'')" by (simp add: event_def)
  have n: "\<forall>k. 1 \<le> k \<and> k < length words_abac \<longrightarrow>
             JStr (word_text (words_abac ! k)) \<noteq> JStr ''x''"
    by (simp add: words_abac_def mk_word_def nth_Cons split: nat.split)
  have l: "1 \<le> length words_abac" by (simp add: words_abac_def)
  have len: "length words_abac = 4" by (simp add: words_abac_def)
  note th = unmatched_event_exhausts_cursor[where wd = "event ''x'' 0 500000"
        and v = "JStr ''x''" and i = 1 and words = words_abac and rs = 7 and rows = "[]"
        and rest = "[event ''c'' 1000000 1200000]", OF t n l]
  show ?thesis using th[unfolded len] t by blast
qed




text \<open>
  C3. Whatever the words and the events are, and whether or not the loop ends with an
  exception, it creates at most \<open>min (len(words), len(alignment_data))\<close> rows.
\<close>

theorem records_at_most_min:
  "length (snd (match_loop rs words evs (0, rows)))
     \<le> length rows + min (length words) (length evs)"
proof -
  obtain new idxs where
    h: "snd (match_loop rs words evs (0, rows)) = rows @ new"
       "map word new = map ((!) words) idxs" "sorted_wrt (<) idxs"
       "set idxs \<subseteq> {0..<length words}" "length new \<le> length evs"
    using match_loop_rows[of rs words evs 0 rows] by blast
  have "length new = length idxs" using h(2) by (metis length_map)
  then have "length new \<le> length words" using sorted_idxs_length[OF h(3,4)] by simp
  then show ?thesis using h(1,5) by simp
qed

text \<open>
  C4. The cursor \<open>word_idx\<close> never decreases: not in the inner scan, not over one pass
  of the loop body, not over the whole loop. The rows the loop creates are bound to words
  at strictly increasing indices from the starting cursor on, so no index is bound twice;
  when the words have distinct primary keys, no two rows point at the same word.
\<close>

theorem cursor_monotone_no_reuse:
  "(scan words wd i = Inr j \<longrightarrow> i \<le> j)
   \<and> (match_word rs words wd (i, rows) = (Inr i', rows') \<longrightarrow> i \<le> i')
   \<and> (match_loop rs words evs (i, rows) = (Inr i'', rows'') \<longrightarrow> i \<le> i'')
   \<and> (\<exists>new idxs. snd (match_loop rs words evs (i, rows)) = rows @ new
         \<and> map word new = map ((!) words) idxs
         \<and> sorted_wrt (<) idxs \<and> set idxs \<subseteq> {i..<length words}
         \<and> (distinct (map word_id words) \<longrightarrow> distinct (map (\<lambda>r. word_id (word r)) new)))"
proof -
  obtain new idxs where
    h: "snd (match_loop rs words evs (i, rows)) = rows @ new"
       "map word new = map ((!) words) idxs" "sorted_wrt (<) idxs"
       "set idxs \<subseteq> {i..<length words}"
    using match_loop_rows[of rs words evs i rows] by blast
  have "distinct (map word_id words) \<longrightarrow> distinct (map (\<lambda>r. word_id (word r)) new)"
    using distinct_ids[OF _ h(3,4,2)] by blast
  then have "\<exists>new idxs. snd (match_loop rs words evs (i, rows)) = rows @ new
         \<and> map word new = map ((!) words) idxs
         \<and> sorted_wrt (<) idxs \<and> set idxs \<subseteq> {i..<length words}
         \<and> (distinct (map word_id words) \<longrightarrow> distinct (map (\<lambda>r. word_id (word r)) new))"
    using h by blast
  then show ?thesis
    using scan_ge match_word_cursor match_loop_cursor by blast
qed

theorem cursor_monotone_no_reuse_witness:
  "scan words_abac (event ''c'' 1000000 1200000) 1 = Inr 3 \<and> (1::nat) \<le> 3
   \<and> match_word 7 words_abac (event ''c'' 1000000 1200000) (1, []) =
         (Inr 4, [\<lparr>recitation_surah = 7, start_time = 1000000, end_time = Some 1200000,
                    word = mk_word 3 ''c''\<rparr>])
   \<and> (1::nat) \<le> 4
   \<and> distinct (map word_id words_abac)
   \<and> (\<exists>new. snd (match_loop 7 words_abac events_ac (0, [])) = new
         \<and> distinct (map (\<lambda>r. word_id (word r)) new))"
proof -
  let ?wd = "event ''c'' 1000000 1200000"
  let ?row = "\<lparr>recitation_surah = 7, start_time = 1000000, end_time = Some 1200000,
               word = mk_word 3 ''c''\<rparr>"
  have a: "scan words_abac ?wd 1 = Inr 3" by code_simp
  have b: "match_word 7 words_abac ?wd (1, []) = (Inr 4, [?row])" by code_simp
  have d: "distinct (map word_id words_abac)" by code_simp
  note th = cursor_monotone_no_reuse[where words = words_abac and wd = ?wd and i = 1
      and j = 3 and rs = 7 and rows = "[]" and i' = 4 and rows' = "[?row]"]
  note th0 = cursor_monotone_no_reuse[where words = words_abac and evs = events_ac
      and i = 0 and rs = 7 and rows = "[]"]
  have c1: "(1::nat) \<le> 3" using th a by blast
  have c2: "(1::nat) \<le> 4" using th b by blast
  have c3: "\<exists>new. snd (match_loop 7 words_abac events_ac (0, [])) = new
         \<and> distinct (map (\<lambda>r. word_id (word r)) new)"
    using th0 d by auto
  show ?thesis using a b d c1 c2 c3 by blast
qed




text \<open>
  C8. With no events or with no words the loop creates no row and raises nothing, even
  when the events lack their keys.
\<close>

theorem empty_input_no_records:
  "evs = [] \<or> words = [] \<Longrightarrow> match_loop rs words evs (0, rows) = (Inr 0, rows)"
  by (auto simp: match_loop_exhausted)

theorem empty_input_no_records_witness:
  "match_loop 7 [] [event ''a'' 0 500000, Map.empty] (0, []) = (Inr 0, [])
   \<and> match_loop 7 [mk_word 0 ''a''] [] (0, []) = (Inr 0, [])"
  using empty_input_no_records[of "[event ''a'' 0 500000, Map.empty]" "[]" 7 "[]"]
        empty_input_no_records[of "[]" "[mk_word 0 ''a'']" 7 "[]"]
  by simp

text \<open>
  C9. A matched event whose \<open>'end'\<close> is present but falsy (zero, \<open>null\<close>, an empty
  string) gives a row with no end time: the code tests \<open>word_data.get('end')\<close> for
  truth, not for presence.
\<close>

theorem falsy_end_gives_no_end_time:
  assumes "scan words wd i = Inr j" and "j < length words"
    and "start_of wd = Inr s"
    and "wd ''end'' = Some v" and "\<not> truthy v"
  shows "match_word rs words wd (i, rows) =
           (Inr (j + 1),
            rows @ [\<lparr>recitation_surah = rs, start_time = s, end_time = None, word = words ! j\<rparr>])"
  using assms by (simp add: match_word_def end_of_def get_def)

theorem falsy_end_gives_no_end_time_witness:
  "scan words_abac (event ''b'' 700000 0) 0 = Inr 1
   \<and> start_of (event ''b'' 700000 0) = Inr 700000
   \<and> event ''b'' 700000 0 ''end'' = Some (JNum 0) \<and> \<not> truthy (JNum 0)
   \<and> match_word 7 words_abac (event ''b'' 700000 0) (0, []) =
        (Inr 2, [\<lparr>recitation_surah = 7, start_time = 700000, end_time = None,
                   word = mk_word 1 ''b''\<rparr>])"
proof -
  let ?wd = "event ''b'' 700000 0"
  have a: "scan words_abac ?wd 0 = Inr 1" by code_simp
  have b: "1 < length words_abac" by (simp add: words_abac_def)
  have c: "start_of ?wd = Inr 700000" by code_simp
  have d: "?wd ''end'' = Some (JNum 0)" by (simp add: event_def)
  have e: "\<not> truthy (JNum 0)" by simp
  have w: "words_abac ! 1 = mk_word 1 ''b''" by (simp add: words_abac_def)
  show ?thesis
    using falsy_end_gives_no_end_time[where words = words_abac and wd = ?wd and i = 0
        and j = 1 and s = 700000 and v = "JNum 0" and rs = 7 and rows = "[]"] a b c d e w
    by simp
qed

section \<open>Verified properties of a run\<close>

text \<open>
  C6, as stated, fails on the notification. With an empty audio URL and a recitation that
  has no creator the task returns the missing-input failure and sends no request, but it
  writes no notification: the write stands under \<open>if user\<close>.
\<close>

theorem missing_input_counterexample:
  "fst (generate_recitation_surah_timestamps_task cfg0 post_500 anonymous 7 [] words_abac
          world0) = MissingInput
   \<and> notifications (snd (generate_recitation_surah_timestamps_task cfg0 post_500 anonymous 7
          [] words_abac world0)) = []"
  by (simp add: generate_recitation_surah_timestamps_task_def anonymous_def notify_def world0_def)

text \<open>
  C6, amended. When the audio URL is empty or the joined text of the words is empty, the
  task returns the missing-input failure, writes one failure notification if the
  recitation has a creator and none otherwise, sends no request and creates no row.
\<close>

theorem missing_input_fails_before_request:
  assumes "audio_url = [] \<or> join (map word_text words) = []"
  shows "generate_recitation_surah_timestamps_task cfg post recitation rs audio_url words w
     = (MissingInput,
        w\<lparr>notifications := notifications w @
             failure_note recitation ''quran.tasks.generate_recitation_timestamps'' MissingInput\<rparr>)
     \<and> posted (snd (generate_recitation_surah_timestamps_task cfg post recitation rs audio_url
          words w)) = posted w
     \<and> timestamps (snd (generate_recitation_surah_timestamps_task cfg post recitation rs
          audio_url words w)) = timestamps w"
proof -
  have "generate_recitation_surah_timestamps_task cfg post recitation rs audio_url words w
     = (MissingInput,
        w\<lparr>notifications := notifications w @
             failure_note recitation ''quran.tasks.generate_recitation_timestamps'' MissingInput\<rparr>)"
    using assms
    by (auto simp: generate_recitation_surah_timestamps_task_def Let_def notify_failed)
  then show ?thesis by simp
qed

theorem missing_input_fails_before_request_witness:
  "generate_recitation_surah_timestamps_task cfg0 post_500 owned 7 [] words_abac world0
     = (MissingInput,
        \<lparr>timestamps = [],
         notifications =
           [\<lparr>user = 5, resource_controller = ''quran.tasks.generate_recitation_timestamps'',
             resource_uuid = ''r1'', description = ''Failed to generate recitation timestamps'',
             message = MissingInput, message_type = MESSAGE_TYPE_FAILED\<rparr>],
         posted = []\<rparr>)
   \<and> generate_recitation_surah_timestamps_task cfg0 post_500 owned 7 ''http://a.mp3'' [] world0
     = (MissingInput,
        \<lparr>timestamps = [],
         notifications =
           [\<lparr>user = 5, resource_controller = ''quran.tasks.generate_recitation_timestamps'',
             resource_uuid = ''r1'', description = ''Failed to generate recitation timestamps'',
             message = MissingInput, message_type = MESSAGE_TYPE_FAILED\<rparr>],
         posted = []\<rparr>)"
  using missing_input_fails_before_request[where audio_url = "[]" and words = words_abac
      and cfg = cfg0 and post = post_500 and recitation = owned and rs = 7 and w = world0]
    missing_input_fails_before_request[where audio_url = "''http://a.mp3''" and words = "[]"
      and cfg = cfg0 and post = post_500 and recitation = owned and rs = 7 and w = world0]
  by (simp add: failure_note_def owned_def world0_def)

text \<open>
  C7, as stated, fails for a status outside 2xx that is no error status. The service
  answers 300 with an empty list as body; \<open>raise_for_status\<close> lets it pass, the loop
  runs over no event, and the task reports success.
\<close>

theorem non_2xx_counterexample:
  "generate_recitation_surah_timestamps_task cfg0 post_300 owned 7 ''http://a.mp3'' words_abac
     world0
   = (Generated,
      \<lparr>timestamps = [],
       notifications =
         [\<lparr>user = 5, resource_controller = ''recitations'', resource_uuid = ''r1'',
           description = ''Recitation timestamps generated'', message = Generated,
           message_type = MESSAGE_TYPE_SUCCESS\<rparr>],
       posted = [align_request cfg0 ''http://a.mp3'' ''a b a c'']\<rparr>)"
  by code_simp

text \<open>
  C7, amended. When the service answers with a 4xx or 5xx status, the task returns the
  failure text that carries the HTTP error, has sent exactly that one request, creates no
  row, and writes one failure notification if the recitation has a creator and none
  otherwise. The error is a returned value: the handler of the inner \<open>try\<close> caught it.
\<close>

theorem error_status_fails:
  assumes "audio_url \<noteq> []" and "join (map word_text words) \<noteq> []"
    and "post (align_request cfg audio_url (join (map word_text words))) = Response status b"
    and "400 \<le> status" and "status < 600"
  shows "generate_recitation_surah_timestamps_task cfg post recitation rs audio_url words w
     = (Raised (HTTPError status),
        w\<lparr>posted := posted w @ [align_request cfg audio_url (join (map word_text words))],
          notifications := notifications w @
            failure_note recitation ''quran.generate_recitation_timestamps''
              (Raised (HTTPError status))\<rparr>)"
  using assms
  by (simp add: generate_recitation_surah_timestamps_task_def Let_def align_def
      raise_for_status_def notify_failed)

theorem error_status_fails_witness:
  "generate_recitation_surah_timestamps_task cfg0 post_500 owned 7 ''http://a.mp3'' words_abac
     world0
   = (Raised (HTTPError 500),
      \<lparr>timestamps = [],
       notifications =
         [\<lparr>user = 5, resource_controller = ''quran.generate_recitation_timestamps'',
           resource_uuid = ''r1'', description = ''Failed to generate recitation timestamps'',
           message = Raised (HTTPError 500), message_type = MESSAGE_TYPE_FAILED\<rparr>],
       posted = [align_request cfg0 ''http://a.mp3'' ''a b a c'']\<rparr>)"
proof -
  have j: "join (map word_text words_abac) = ''a b a c''" by code_simp
  have p: "post_500 (align_request cfg0 ''http://a.mp3'' (join (map word_text words_abac)))
           = Response 500 NotJSON"
    by (simp add: post_500_def)
  show ?thesis
    using error_status_fails[where audio_url = "''http://a.mp3''" and words = words_abac
        and cfg = cfg0 and post = post_500 and recitation = owned and rs = 7 and w = world0
        and status = 500 and b = NotJSON, OF _ _ p]
    by (simp add: j failure_note_def owned_def world0_def)
qed

text \<open>
  C10. When the loop has passed the events \<open>before\<close> and the next event raises, the
  task returns the failure text with that exception and writes the failure notification,
  and the rows created for the events \<open>before\<close> are still there, after the rows that
  existed at the start: nothing is rolled back.
\<close>

theorem exception_in_loop_keeps_earlier_rows:
  assumes "audio_url \<noteq> []" and "join (map word_text words) \<noteq> []"
    and "post (align_request cfg audio_url (join (map word_text words)))
           = Response status (Alignment (before @ bad # after))"
    and "status < 400 \<or> 600 \<le> status"
    and "match_loop rs words before (0, timestamps w) = (Inr i, kept)"
    and "match_word rs words bad (i, kept) = (Inl e, rest_rows)"
  shows "generate_recitation_surah_timestamps_task cfg post recitation rs audio_url words w
     = (Raised e,
        w\<lparr>posted := posted w @ [align_request cfg audio_url (join (map word_text words))],
          timestamps := kept,
          notifications := notifications w @
            failure_note recitation ''quran.generate_recitation_timestamps'' (Raised e)\<rparr>)
     \<and> (\<exists>new. kept = timestamps w @ new \<and> length new \<le> length before)"
proof -
  have r2: "rest_rows = kept" using assms(6) by (rule match_word_raises_keeps_rows)
  have loop: "match_loop rs words (before @ bad # after) (0, timestamps w) = (Inl e, kept)"
    using assms(5,6) r2 by (simp add: match_loop_append)
  have st: "raise_for_status status = Inr ()"
    using assms(4) by (auto simp: raise_for_status_def)
  have run: "generate_recitation_surah_timestamps_task cfg post recitation rs audio_url words w
     = (Raised e,
        w\<lparr>posted := posted w @ [align_request cfg audio_url (join (map word_text words))],
          timestamps := kept,
          notifications := notifications w @
            failure_note recitation ''quran.generate_recitation_timestamps'' (Raised e)\<rparr>)"
    using assms(1,2,3) st loop
    by (simp add: generate_recitation_surah_timestamps_task_def Let_def align_def json_of_def
        notify_failed)
  obtain new idxs where "snd (match_loop rs words before (0, timestamps w)) = timestamps w @ new"
    "length new \<le> length before"
    using match_loop_rows[of rs words before 0 "timestamps w"] by blast
  then have "\<exists>new. kept = timestamps w @ new \<and> length new \<le> length before"
    using assms(5) by auto
  then show ?thesis using run by blast
qed

theorem exception_in_loop_keeps_earlier_rows_witness:
  "generate_recitation_surah_timestamps_task cfg0 post_partial owned 7 ''http://a.mp3''
     words_abac world0
   = (Raised (KeyError ''start''),
      \<lparr>timestamps =
         [\<lparr>recitation_surah = 7, start_time = 0, end_time = Some 500000,
            word = mk_word 0 ''a''\<rparr>],
       notifications =
         [\<lparr>user = 5, resource_controller = ''quran.generate_recitation_timestamps'',
           resource_uuid = ''r1'', description = ''Failed to generate recitation timestamps'',
           message = Raised (KeyError ''start''), message_type = MESSAGE_TYPE_FAILED\<rparr>],
       posted = [align_request cfg0 ''http://a.mp3'' ''a b a c'']\<rparr>)"
proof -
  let ?row = "\<lparr>recitation_surah = 7, start_time = 0, end_time = Some 500000,
               word = mk_word 0 ''a''\<rparr>"
  have j: "join (map word_text words_abac) = ''a b a c''" by code_simp
  have p: "post_partial (align_request cfg0 ''http://a.mp3'' (join (map word_text words_abac)))
           = Response 200 (Alignment ([event ''a'' 0 500000] @ [''text'' \<mapsto> JStr ''b'']
               # [event ''c'' 1000000 1200000]))"
    by (simp add: post_partial_def)
  have a: "match_loop 7 words_abac [event ''a'' 0 500000] (0, timestamps world0) = (Inr 1, [?row])"
    by code_simp
  have b: "match_word 7 words_abac [''text'' \<mapsto> JStr ''b''] (1, [?row])
           = (Inl (KeyError ''start''), [?row])"
    by code_simp
  have u: "''http://a.mp3'' \<noteq> []" "join (map word_text words_abac) \<noteq> []"
    by (simp_all add: j)
  have s: "(200::nat) < 400 \<or> 600 \<le> (200::nat)" by simp
  note th = exception_in_loop_keeps_earlier_rows[where audio_url = "''http://a.mp3''"
        and words = words_abac and cfg = cfg0 and post = post_partial and recitation = owned
        and rs = 7 and w = world0 and status = 200 and before = "[event ''a'' 0 500000]"
        and bad = "[''text'' \<mapsto> JStr ''b'']" and after = "[event ''c'' 1000000 1200000]"
        and i = 1 and kept = "[?row]" and e = "KeyError ''start''" and rest_rows = "[?row]",
        OF u p s a b]
  show ?thesis
    using th by (simp add: j failure_note_def owned_def world0_def)
qed

end
